theory Spec2Isabelle
  imports Main
begin

section \<open>The session supervisor of srt-server.js\<close>

text \<open>
  The class \<^verbatim>\<open>SRTServer\<close> of \<^verbatim>\<open>src/srt-server.js\<close> owns one ffmpeg child process,
  wipes the HLS directory around every run, detects liveness from the engine's stderr
  and restarts the engine two seconds after every exit. The supervisor is a set of
  callbacks over shared mutable fields, so it is embedded as state passing: one record
  holds the object's fields together with the part of the environment the callbacks
  read and write (the HLS directory, the clock, the child processes, the pending
  timers), and every callback is a function from state to state. Everything a callback
  does to the outside (console output, file system calls, spawn, kill, setTimeout) is
  appended to a trace in program order.
\<close>

subsection \<open>Data\<close>

type_synonym filename = string
type_synonym pid = nat

text \<open>\<^verbatim>\<open>this.stats\<close> (lines 25-29); \<^verbatim>\<open>null\<close> is \<open>None\<close>.\<close>

record stats_t =
  startTime :: "int option"
  isLive :: bool
  currentFile :: "string option"

text \<open>The object returned by \<^verbatim>\<open>getStats()\<close>: the spread of \<^verbatim>\<open>this.stats\<close> plus \<^verbatim>\<open>uptime\<close>.\<close>

record snapshot = stats_t +
  uptime :: int

text \<open>The exceptions of \<^verbatim>\<open>fs.readdirSync\<close> and \<^verbatim>\<open>fs.unlinkSync\<close>.\<close>

datatype error = ReaddirFailed | UnlinkFailed filename

text \<open>
  Observable actions, one constructor per call site of the source. The \<open>Log\<close> and
  \<open>Stdout\<close> constructors are the console lines; the others are calls into Node.
\<close>

datatype effect =
    LogClearing                     \<comment> \<open>line 34\<close>
  | FsReaddir                       \<comment> \<open>line 36, the call\<close>
  | FsUnlink filename bool          \<comment> \<open>line 40, the call and whether it succeeded\<close>
  | LogDeleted filename             \<comment> \<open>line 41\<close>
  | LogCleared                      \<comment> \<open>line 44\<close>
  | LogClearError error             \<comment> \<open>line 46\<close>
  | LogStarting                     \<comment> \<open>line 54\<close>
  | Spawn pid string                \<comment> \<open>line 109, with the recording path among the arguments\<close>
  | StdoutWrite string              \<comment> \<open>line 115\<close>
  | LogStreamStarted                \<comment> \<open>line 121\<close>
  | LogRecording string             \<comment> \<open>line 122\<close>
  | LogWatchLive                    \<comment> \<open>lines 123-125\<close>
  | LogErrorLine string             \<comment> \<open>line 128\<close>
  | LogStreamEnded "int option"     \<comment> \<open>line 133\<close>
  | LogRecordingSaved string        \<comment> \<open>line 135\<close>
  | SetTimeout nat                  \<comment> \<open>line 142, delay in ms\<close>
  | LogRestarting                   \<comment> \<open>line 143\<close>
  | LogFailedToStart string         \<comment> \<open>line 149\<close>
  | LogListening                    \<comment> \<open>lines 152-154\<close>
  | Kill pid                        \<comment> \<open>line 159\<close>
  | LogShuttingDown                 \<comment> \<open>line 797\<close>
  | ProcessExit int                 \<comment> \<open>lines 799, 804\<close>

text \<open>
  The state. \<open>ffmpegProcess\<close> and \<open>stats\<close> are the fields of the object. The rest is
  the environment:
  \<^item> \<open>hlsDir\<close>: what \<^verbatim>\<open>readdirSync(CONFIG.hlsDir)\<close> returns, \<open>None\<close> when it throws;
  \<^item> \<open>undeletable\<close>: the files on which \<^verbatim>\<open>unlinkSync\<close> throws;
  \<^item> \<open>clock\<close>, \<open>isoNow\<close>: \<^verbatim>\<open>Date.now()\<close> and \<^verbatim>\<open>new Date().toISOString()\<close>;
  \<^item> \<open>handlers\<close>: the child processes that have been spawned and have not closed,
    each with the \<^verbatim>\<open>outputFile\<close> its three listeners (lines 111-150) captured;
  \<^item> \<open>timers\<close>: the number of pending restart timers (line 142);
  \<^item> \<open>exited\<close>: \<^verbatim>\<open>process.exit\<close> has been called.
\<close>

record state =
  ffmpegProcess :: "pid option"
  stats :: stats_t
  hlsDir :: "filename list option"
  undeletable :: "filename set"
  clock :: int
  isoNow :: string
  handlers :: "pid \<rightharpoonup> string"
  nextPid :: pid
  timers :: nat
  trace :: "effect list"
  exited :: bool

definition emit :: "effect \<Rightarrow> state \<Rightarrow> state" where
  "emit e s = s\<lparr>trace := trace s @ [e]\<rparr>"

subsection \<open>Strings and paths\<close>

definition CONFIG_outputDir :: string where
  "CONFIG_outputDir = ''./streams''"

definition CONFIG_hlsDir :: string where
  "CONFIG_hlsDir = ''./hls''"

definition str_endsWith :: "string \<Rightarrow> string \<Rightarrow> bool" where
  "str_endsWith s suf = (length suf \<le> length s \<and> drop (length s - length suf) s = suf)"

fun str_includes :: "string \<Rightarrow> string \<Rightarrow> bool" where
  "str_includes [] sub = (sub = [])"
| "str_includes (c # cs) sub = (take (length sub) (c # cs) = sub \<or> str_includes cs sub)"

text \<open>
  \<^verbatim>\<open>String.prototype.trim\<close>. A character of the model is a code unit of the JavaScript
  string below 256; of the white space and line terminators that \<^verbatim>\<open>trim\<close> strips, these
  are space, tab, line feed, vertical tab, form feed, carriage return and the no-break
  space U+00A0.
\<close>

definition is_space :: "char \<Rightarrow> bool" where
  "is_space c =
     (c \<in> set [CHR 0x20, CHR 0x09, CHR 0x0A, CHR 0x0B, CHR 0x0C, CHR 0x0D, CHR 0xA0])"

definition str_trim :: "string \<Rightarrow> string" where
  "str_trim s = rev (dropWhile is_space (rev (dropWhile is_space s)))"

text \<open>
  \<^verbatim>\<open>path.join(dir, name)\<close> for the calls of the source: a directory of the configuration
  and a plain file name. The leading \<^verbatim>\<open>./\<close> is normalised away.
\<close>

definition path_join :: "string \<Rightarrow> string \<Rightarrow> string" where
  "path_join dir name = (if take 2 dir = ''./'' then drop 2 dir else dir) @ ''/'' @ name"

subsection \<open>The file system calls\<close>

definition readdirSync :: "state \<Rightarrow> (error + filename list) \<times> state" where
  "readdirSync s =
     (case hlsDir s of
        None \<Rightarrow> (Inl ReaddirFailed, emit FsReaddir s)
      | Some files \<Rightarrow> (Inr files, emit FsReaddir s))"

text \<open>
  \<^verbatim>\<open>fs.unlinkSync(path.join(CONFIG.hlsDir, file))\<close> (lines 38 and 40): the file leaves
  the directory, or the call throws and the directory is as it was.
\<close>

definition unlinkSync :: "filename \<Rightarrow> state \<Rightarrow> (error + unit) \<times> state" where
  "unlinkSync file s =
     (let filePath = path_join CONFIG_hlsDir file in
      if file \<in> undeletable s then (Inl (UnlinkFailed file), emit (FsUnlink filePath False) s)
      else (Inr (), emit (FsUnlink filePath True)
                      (s\<lparr>hlsDir := map_option (removeAll file) (hlsDir s)\<rparr>)))"

subsection \<open>clearHLSBuffer (lines 33-48)\<close>

text \<open>
  The test of line 39 and the body of \<^verbatim>\<open>files.forEach\<close> (lines 37-43). An exception of \<^verbatim>\<open>unlinkSync\<close> leaves
  the loop: the remaining files are not visited.
\<close>

definition is_hls_file :: "filename \<Rightarrow> bool" where
  "is_hls_file file = (str_endsWith file ''.ts'' \<or> str_endsWith file ''.m3u8'')"

fun forEach_file :: "filename list \<Rightarrow> state \<Rightarrow> (error + unit) \<times> state" where
  "forEach_file [] s = (Inr (), s)"
| "forEach_file (file # files) s =
     (if is_hls_file file then
        (case unlinkSync file s of
           (Inl err, s') \<Rightarrow> (Inl err, s')
         | (Inr _, s') \<Rightarrow> forEach_file files (emit (LogDeleted file) s'))
      else forEach_file files s)"

text \<open>The \<^verbatim>\<open>try\<close> block and its single \<^verbatim>\<open>catch\<close> (lines 35-47).\<close>

definition clearHLSBuffer :: "state \<Rightarrow> state" where
  "clearHLSBuffer s =
     (case readdirSync (emit LogClearing s) of
        (Inl err, s1) \<Rightarrow> emit (LogClearError err) s1
      | (Inr files, s1) \<Rightarrow>
          (case forEach_file files s1 of
             (Inl err, s2) \<Rightarrow> emit (LogClearError err) s2
           | (Inr _, s2) \<Rightarrow> emit LogCleared s2))"

subsection \<open>The listeners of a child process (lines 111-150)\<close>

text \<open>The \<^verbatim>\<open>stderr\<close> \<^verbatim>\<open>data\<close> listener; \<open>outputFile\<close> is the path the closure captured.\<close>

definition on_data :: "string \<Rightarrow> string \<Rightarrow> state \<Rightarrow> state" where
  "on_data outputFile output s =
     (if str_includes output ''frame='' \<or> str_includes output ''time='' then
        (let s1 = emit (StdoutWrite (CHR 0x0D # take 100 (str_trim output))) s in
         if \<not> isLive (stats s1) then
           (let s2 = s1\<lparr>stats := (stats s1)\<lparr>isLive := True\<rparr>\<rparr>;
                s3 = s2\<lparr>stats := (stats s2)\<lparr>startTime := Some (clock s2)\<rparr>\<rparr>;
                s4 = s3\<lparr>stats := (stats s3)\<lparr>currentFile := Some outputFile\<rparr>\<rparr>
            in emit LogWatchLive (emit (LogRecording outputFile) (emit LogStreamStarted s4)))
         else s1)
      else if str_includes output ''error'' \<or> str_includes output ''Error'' then
        emit (LogErrorLine output) s
      else s)"

text \<open>\<^verbatim>\<open>setTimeout(..., 2000)\<close> of line 142: one more pending restart timer.\<close>

definition setTimeout_restart :: "state \<Rightarrow> state" where
  "setTimeout_restart s = emit (SetTimeout 2000) (s\<lparr>timers := Suc (timers s)\<rparr>)"

text \<open>The \<^verbatim>\<open>close\<close> listener. \<^verbatim>\<open>if (this.stats.currentFile)\<close> is false on null and on the empty string.\<close>

definition on_close :: "int option \<Rightarrow> state \<Rightarrow> state" where
  "on_close code s =
     (let s1 = emit (LogStreamEnded code) s;
          s2 = (case currentFile (stats s1) of
                  None \<Rightarrow> s1
                | Some f \<Rightarrow> if f \<noteq> [] then emit (LogRecordingSaved f) s1 else s1);
          s3 = s2\<lparr>stats := (stats s2)\<lparr>isLive := False\<rparr>\<rparr>;
          s4 = clearHLSBuffer s3
      in setTimeout_restart s4)"

text \<open>The \<^verbatim>\<open>error\<close> listener (lines 148-150).\<close>

definition on_error :: "string \<Rightarrow> state \<Rightarrow> state" where
  "on_error msg s = emit (LogFailedToStart msg) s"

subsection \<open>start, stop, getStats\<close>

text \<open>\<^verbatim>\<open>spawn("ffmpeg", ffmpegArgs)\<close>: a new child process object.\<close>

definition spawn :: "string \<Rightarrow> state \<Rightarrow> pid \<times> state" where
  "spawn outputFile s = (nextPid s, emit (Spawn (nextPid s) outputFile) (s\<lparr>nextPid := Suc (nextPid s)\<rparr>))"

text \<open>\<^verbatim>\<open>.replace(/[:.]/g, "-")\<close> of line 56.\<close>

definition replace_colon_dot :: "string \<Rightarrow> string" where
  "replace_colon_dot str = map (\<lambda>c. if c = CHR '':'' \<or> c = CHR ''.'' then CHR ''-'' else c) str"

definition start :: "state \<Rightarrow> state" where
  "start s =
     (let s1 = emit LogStarting (clearHLSBuffer s);
          timestamp = replace_colon_dot (isoNow s1);
          outputFile = path_join CONFIG_outputDir (''stream-'' @ timestamp @ ''.mp4'');
          (p, s2) = spawn outputFile s1;
          s3 = s2\<lparr>ffmpegProcess := Some p\<rparr>;
          s4 = s3\<lparr>handlers := (handlers s3)(p \<mapsto> outputFile)\<rparr>
      in emit LogListening s4)"

definition stop :: "state \<Rightarrow> state" where
  "stop s =
     clearHLSBuffer
       (case ffmpegProcess s of
          None \<Rightarrow> s
        | Some p \<Rightarrow> (emit (Kill p) s)\<lparr>ffmpegProcess := None\<rparr>)"

text \<open>
  \<^verbatim>\<open>getStats()\<close> returns a fresh object and the state. \<^verbatim>\<open>this.stats.startTime ? ... : 0\<close>
  is false on null and on 0.
\<close>

definition getStats :: "state \<Rightarrow> snapshot \<times> state" where
  "getStats s =
     (stats_t.extend (stats s)
        (snapshot.fields
           (case startTime (stats s) of
              None \<Rightarrow> 0
            | Some t \<Rightarrow> if t \<noteq> 0 then clock s - t else 0)),
      s)"

subsection \<open>The program\<close>

text \<open>The constructor (lines 23-30).\<close>

definition constructor :: "state \<Rightarrow> state" where
  "constructor s =
     s\<lparr>ffmpegProcess := None,
       stats := \<lparr>startTime = None, isLive = False, currentFile = None\<rparr>\<rparr>"

text \<open>The environment when the script is loaded: no child, no timer, nothing printed.\<close>

definition fresh_env :: "filename list option \<Rightarrow> filename set \<Rightarrow> int \<Rightarrow> string \<Rightarrow> state" where
  "fresh_env files bad t ts =
     \<lparr>ffmpegProcess = None,
      stats = \<lparr>startTime = None, isLive = False, currentFile = None\<rparr>,
      hlsDir = files, undeletable = bad, clock = t, isoNow = ts,
      handlers = Map.empty, nextPid = 0, timers = 0, trace = [], exited = False\<rparr>"

text \<open>
  Lines 174-175: \<^verbatim>\<open>new SRTServer()\<close> and \<^verbatim>\<open>srtServer.start()\<close>, in the environment
  the script finds (lines 16-20 have created the two directories if they were missing).
\<close>

definition main :: "filename list option \<Rightarrow> filename set \<Rightarrow> int \<Rightarrow> string \<Rightarrow> state" where
  "main files bad t ts = start (constructor (fresh_env files bad t ts))"

text \<open>The callback of the restart timer (lines 142-145).\<close>

definition restart_callback :: "state \<Rightarrow> state" where
  "restart_callback s = start (emit LogRestarting s)"

definition process_exit :: "int \<Rightarrow> state \<Rightarrow> state" where
  "process_exit c s = (emit (ProcessExit c) s)\<lparr>exited := True\<rparr>"

text \<open>The signal handlers (lines 796-805).\<close>

definition on_SIGINT :: "state \<Rightarrow> state" where
  "on_SIGINT s = process_exit 0 (stop (emit LogShuttingDown s))"

definition on_SIGTERM :: "state \<Rightarrow> state" where
  "on_SIGTERM s = process_exit 0 (stop s)"

text \<open>
  What the event loop can deliver. \<open>Tick\<close> and \<open>Fs\<close> are the environment moving on
  its own (time passes; the engine or anyone else changes the HLS directory). \<open>Data\<close>,
  \<open>Close\<close> and \<open>Error\<close> are the events of a child process; they reach the listeners
  only while the process is registered, and \<open>Close\<close> is the last event of a process.
  Node emits \<^verbatim>\<open>close\<close> after \<^verbatim>\<open>exit\<close> or, for a child that failed to spawn, after
  \<^verbatim>\<open>error\<close> (with a negative code), so an \<open>Error\<close> leaves the process registered.
  \<open>GetStats\<close> is a request to \<^verbatim>\<open>/api/stats\<close>. \<open>SIGINT\<close> and \<open>SIGTERM\<close> run the signal
  handlers, the only callers of \<^verbatim>\<open>stop()\<close> (lines 798 and 803; the object is local to the
  script). After \<^verbatim>\<open>process.exit\<close> nothing runs.
\<close>

datatype event =
    Tick int string
  | Fs "filename list option" "filename set"
  | Data pid string
  | Close pid "int option"
  | Error pid string
  | TimerFire
  | GetStats
  | SIGINT
  | SIGTERM

definition step :: "event \<Rightarrow> state \<Rightarrow> state" where
  "step e s =
     (if exited s then s
      else case e of
        Tick t ts \<Rightarrow> s\<lparr>clock := t, isoNow := ts\<rparr>
      | Fs files bad \<Rightarrow> s\<lparr>hlsDir := files, undeletable := bad\<rparr>
      | Data p output \<Rightarrow>
          (case handlers s p of None \<Rightarrow> s | Some outputFile \<Rightarrow> on_data outputFile output s)
      | Close p code \<Rightarrow>
          (case handlers s p of
             None \<Rightarrow> s
           | Some outputFile \<Rightarrow> on_close code (s\<lparr>handlers := (handlers s)(p := None)\<rparr>))
      | Error p msg \<Rightarrow>
          (case handlers s p of None \<Rightarrow> s | Some outputFile \<Rightarrow> on_error msg s)
      | TimerFire \<Rightarrow>
          (if 0 < timers s then restart_callback (s\<lparr>timers := timers s - 1\<rparr>) else s)
      | GetStats \<Rightarrow> snd (getStats s)
      | SIGINT \<Rightarrow> on_SIGINT s
      | SIGTERM \<Rightarrow> on_SIGTERM s)"

fun run :: "event list \<Rightarrow> state \<Rightarrow> state" where
  "run [] s = s"
| "run (e # es) s = run es (step e s)"

subsection \<open>Vocabulary of the statements\<close>

text \<open>
  What one sweep of \<^verbatim>\<open>clearHLSBuffer()\<close> does, as functions of the directory listing
  and of the set of undeletable files: \<open>deleted_by\<close> are the files it deletes (the
  matching files before the first undeletable one), \<open>first_failure\<close> is the file at
  which it stops, \<open>clear_dir\<close> is the directory it leaves and \<open>clear_trace\<close> what it
  prints and calls.
\<close>

definition deleted_by :: "filename set \<Rightarrow> filename list \<Rightarrow> filename list" where
  "deleted_by bad files = takeWhile (\<lambda>f. f \<notin> bad) (filter is_hls_file files)"

definition first_failure :: "filename set \<Rightarrow> filename list \<Rightarrow> filename option" where
  "first_failure bad files =
     (case dropWhile (\<lambda>f. f \<notin> bad) (filter is_hls_file files) of [] \<Rightarrow> None | f # _ \<Rightarrow> Some f)"

definition unlink_trace :: "filename set \<Rightarrow> filename list \<Rightarrow> effect list" where
  "unlink_trace bad files =
     concat (map (\<lambda>f. [FsUnlink (path_join CONFIG_hlsDir f) True, LogDeleted f]) (deleted_by bad files))
     @ (case first_failure bad files of
          None \<Rightarrow> []
        | Some f \<Rightarrow> [FsUnlink (path_join CONFIG_hlsDir f) False])"

definition clear_dir :: "filename set \<Rightarrow> filename list option \<Rightarrow> filename list option" where
  "clear_dir bad dir = map_option (\<lambda>files. filter (\<lambda>f. f \<notin> set (deleted_by bad files)) files) dir"

definition clear_trace :: "filename set \<Rightarrow> filename list option \<Rightarrow> effect list" where
  "clear_trace bad dir =
     (case dir of
        None \<Rightarrow> [LogClearing, FsReaddir, LogClearError ReaddirFailed]
      | Some files \<Rightarrow>
          [LogClearing, FsReaddir] @ unlink_trace bad files
          @ (case first_failure bad files of
               None \<Rightarrow> [LogCleared]
             | Some f \<Rightarrow> [LogClearError (UnlinkFailed f)]))"

text \<open>
  \<open>new_effects s s'\<close> is what was appended to the trace between \<open>s\<close> and \<open>s'\<close>;
  \<open>session_file\<close> is the recording path \<^verbatim>\<open>start()\<close> computes (lines 56-57);
  \<open>saved_line\<close> and \<open>kill_line\<close> are the optional line of the \<^verbatim>\<open>close\<close> listener
  (lines 134-136) and the optional signal of \<^verbatim>\<open>stop()\<close> (lines 158-161);
  \<open>changes_something\<close> holds of the calls that change the directory, the processes or
  the timers.
\<close>

definition new_effects :: "state \<Rightarrow> state \<Rightarrow> effect list" where
  "new_effects s s' = drop (length (trace s)) (trace s')"

definition session_file :: "state \<Rightarrow> string" where
  "session_file s = path_join CONFIG_outputDir (''stream-'' @ replace_colon_dot (isoNow s) @ ''.mp4'')"

definition saved_line :: "state \<Rightarrow> effect list" where
  "saved_line s =
     (case currentFile (stats s) of
        None \<Rightarrow> []
      | Some f \<Rightarrow> if f \<noteq> [] then [LogRecordingSaved f] else [])"

definition kill_line :: "state \<Rightarrow> effect list" where
  "kill_line s = (case ffmpegProcess s of None \<Rightarrow> [] | Some p \<Rightarrow> [Kill p])"

definition changes_something :: "effect \<Rightarrow> bool" where
  "changes_something e =
     (case e of
        FsUnlink f ok \<Rightarrow> ok
      | Spawn p f \<Rightarrow> True
      | Kill p \<Rightarrow> True
      | SetTimeout d \<Rightarrow> True
      | ProcessExit c \<Rightarrow> True
      | _ \<Rightarrow> False)"

text \<open>
  The two tests of the \<^verbatim>\<open>data\<close> listener (lines 114 and 127) and the three lines it
  prints when a session becomes live (lines 121-125).
\<close>

definition progress_marker :: "string \<Rightarrow> bool" where
  "progress_marker output = (str_includes output ''frame='' \<or> str_includes output ''time='')"

definition error_marker :: "string \<Rightarrow> bool" where
  "error_marker output = (str_includes output ''error'' \<or> str_includes output ''Error'')"

definition became_live :: "string \<Rightarrow> effect list" where
  "became_live outputFile = [LogStreamStarted, LogRecording outputFile, LogWatchLive]"

text \<open>
  Sessions. \<open>started_count\<close> counts the became-live notifications printed so far;
  \<open>progress_for p\<close> holds of the progress chunks of process \<open>p\<close>; \<open>in_session p f\<close> holds
  while \<open>p\<close>, whose listeners captured \<open>f\<close>, is the only child and no restart is
  pending. \<open>single_flow\<close> and \<open>stats_inv\<close> are the invariants of the reachable states:
  one engine or one pending restart at a time, and a start time whenever live.
\<close>

definition started_count :: "state \<Rightarrow> nat" where
  "started_count s = count_list (trace s) LogStreamStarted"

definition in_session :: "pid \<Rightarrow> string \<Rightarrow> state \<Rightarrow> bool" where
  "in_session p f s = (handlers s = [p \<mapsto> f] \<and> timers s = 0)"

definition progress_for :: "pid \<Rightarrow> event \<Rightarrow> bool" where
  "progress_for p e = (case e of Data q output \<Rightarrow> q = p \<and> progress_marker output | _ \<Rightarrow> False)"

definition single_flow :: "state \<Rightarrow> bool" where
  "single_flow s =
     ((\<exists>p f. in_session p f s \<and> (isLive (stats s) \<longrightarrow> currentFile (stats s) = Some f))
      \<or> (timers s = 1 \<and> handlers s = Map.empty \<and> \<not> isLive (stats s)))"


subsection \<open>Concrete runs\<close>

text \<open>
  Environments and runs on which the statements below are evaluated: an HLS directory
  with two engine files and a foreign one, the program after its first spawn, with the
  engine writing and after the engine's exit, and directories in which one file cannot
  be deleted.
\<close>

definition ex_env :: state where
  "ex_env = fresh_env (Some [''segment000.ts'', ''notes.txt'', ''stream.m3u8'']) {} 1000 ''2024-01-01T00:00:00.000Z''"

definition ex_boot :: state where
  "ex_boot = main (Some [''segment000.ts'', ''notes.txt'', ''stream.m3u8'']) {} 1000 ''2024-01-01T00:00:00.000Z''"

definition ex_running :: state where
  "ex_running =
     step (Fs (Some [''segment000.ts'', ''segment001.ts'', ''notes.txt'', ''stream.m3u8'']) {}) ex_boot"

definition ex_cleaning :: state where
  "ex_cleaning = step (Close 0 (Some 0)) ex_boot"

definition ex_locked :: state where
  "ex_locked = fresh_env (Some [''a.ts'', ''b.ts'']) {''a.ts''} 0 []"

definition ex_mixed :: state where
  "ex_mixed = fresh_env (Some [''x.ts'', ''a.ts'', ''notes.txt'', ''b.m3u8'']) {''a.ts''} 0 []"

section \<open>What the callbacks compute\<close>

lemma forEach_file_eq:
  "forEach_file files s =
     ((case first_failure (undeletable s) files of None \<Rightarrow> Inr () | Some f \<Rightarrow> Inl (UnlinkFailed f)),
      s\<lparr>hlsDir := map_option (filter (\<lambda>f. f \<notin> set (deleted_by (undeletable s) files))) (hlsDir s),
        trace := trace s @ unlink_trace (undeletable s) files\<rparr>)"
proof (induction files arbitrary: s)
  case Nil
  show ?case
    by (simp add: first_failure_def deleted_by_def unlink_trace_def option.map_ident)
next
  case (Cons x files)
  show ?case
  proof (cases "is_hls_file x")
    case False
    then show ?thesis
      using Cons.IH [of s]
      by (simp add: first_failure_def deleted_by_def unlink_trace_def)
  next
    case hls: True
    show ?thesis
    proof (cases "x \<in> undeletable s")
      case True
      then show ?thesis
        using hls
        by (simp add: first_failure_def deleted_by_def unlink_trace_def unlinkSync_def emit_def
            Let_def option.map_ident)
    next
      case False
      have rm: "map_option (filter (\<lambda>f. f \<notin> set ds)) (map_option (removeAll x) d)
                  = map_option (filter (\<lambda>f. f \<noteq> x \<and> f \<notin> set ds)) d" for ds d
        by (cases d) (auto simp: removeAll_filter_not_eq intro: filter_cong)
      show ?thesis
        using hls False
        by (simp add: Cons.IH first_failure_def deleted_by_def unlink_trace_def unlinkSync_def
            emit_def Let_def rm)
    qed
  qed
qed

lemma clearHLSBuffer_eq:
  "clearHLSBuffer s =
     s\<lparr>hlsDir := clear_dir (undeletable s) (hlsDir s),
       trace := trace s @ clear_trace (undeletable s) (hlsDir s)\<rparr>"
  by (cases "hlsDir s")
     (auto simp: clearHLSBuffer_def readdirSync_def emit_def forEach_file_eq clear_dir_def
        clear_trace_def split: option.splits)

lemma start_eq:
  "start s =
     s\<lparr>ffmpegProcess := Some (nextPid s),
       hlsDir := clear_dir (undeletable s) (hlsDir s),
       handlers := (handlers s)(nextPid s \<mapsto> session_file s),
       nextPid := Suc (nextPid s),
       trace := trace s @ clear_trace (undeletable s) (hlsDir s)
                @ [LogStarting, Spawn (nextPid s) (session_file s), LogListening]\<rparr>"
  by (simp add: start_def clearHLSBuffer_eq emit_def spawn_def session_file_def Let_def)

lemma stop_eq:
  "stop s =
     s\<lparr>ffmpegProcess := None,
       hlsDir := clear_dir (undeletable s) (hlsDir s),
       trace := trace s @ kill_line s @ clear_trace (undeletable s) (hlsDir s)\<rparr>"
  by (cases "ffmpegProcess s") (simp_all add: stop_def clearHLSBuffer_eq emit_def kill_line_def)

lemma on_close_eq:
  "on_close code s =
     s\<lparr>stats := (stats s)\<lparr>isLive := False\<rparr>,
       hlsDir := clear_dir (undeletable s) (hlsDir s),
       timers := Suc (timers s),
       trace := trace s @ [LogStreamEnded code] @ saved_line s
                @ clear_trace (undeletable s) (hlsDir s) @ [SetTimeout 2000]\<rparr>"
  by (cases "currentFile (stats s)")
     (simp_all add: on_close_def clearHLSBuffer_eq emit_def setTimeout_restart_def saved_line_def Let_def)

lemma new_effects_append [simp]: "trace s' = trace s @ es \<Longrightarrow> new_effects s s' = es"
  by (simp add: new_effects_def)

lemma new_effects_same [simp]: "trace s' = trace s \<Longrightarrow> new_effects s s' = []"
  by (simp add: new_effects_def)

text \<open>
  A second sweep of the directory right after a first one deletes nothing: the files
  before the first undeletable one are gone, and the sweep stops at that file again.
\<close>

lemma deleted_by_again:
  "deleted_by bad (filter (\<lambda>f. f \<notin> set (deleted_by bad files)) files) = []"
proof -
  define ms where "ms = filter is_hls_file files"
  define del where "del = takeWhile (\<lambda>f. f \<notin> bad) ms"
  define rest where "rest = dropWhile (\<lambda>f. f \<notin> bad) ms"
  have split: "ms = del @ rest"
    by (simp add: del_def rest_def)
  have del_ok: "\<forall>f\<in>set del. f \<notin> bad"
    unfolding del_def by (auto dest: set_takeWhileD)
  have swap: "filter is_hls_file (filter (\<lambda>f. f \<notin> set del) files) = filter (\<lambda>f. f \<notin> set del) ms"
    by (auto simp: ms_def intro: filter_cong)
  have "takeWhile (\<lambda>f. f \<notin> bad) (filter (\<lambda>f. f \<notin> set del) ms) = []"
  proof (cases rest)
    case Nil
    then show ?thesis using split by simp
  next
    case (Cons b bs)
    then have "b \<in> bad"
      using hd_dropWhile [of "\<lambda>f. f \<notin> bad" ms] by (simp add: rest_def)
    moreover from this del_ok have "b \<notin> set del" by blast
    ultimately show ?thesis
      using split Cons by simp
  qed
  then have "takeWhile (\<lambda>f. f \<notin> bad)
               (filter is_hls_file (filter (\<lambda>f. f \<notin> set del) files)) = []"
    by (simp only: swap)
  then show ?thesis
    unfolding deleted_by_def del_def ms_def .
qed

lemma clear_dir_idem: "clear_dir bad (clear_dir bad dir) = clear_dir bad dir"
  by (cases dir) (simp_all add: clear_dir_def deleted_by_again)

lemma clear_trace_again:
  "filter changes_something (clear_trace bad (clear_dir bad dir)) = []"
  by (cases dir)
     (simp_all add: clear_dir_def clear_trace_def unlink_trace_def deleted_by_again
        changes_something_def split: option.splits)

text \<open>The listeners and the timer callback as record updates; runs.\<close>

lemma on_data_eq:
  "on_data f output s =
     s\<lparr>stats := (if progress_marker output \<and> \<not> isLive (stats s)
                 then (stats s)\<lparr>startTime := Some (clock s), isLive := True, currentFile := Some f\<rparr>
                 else stats s),
       trace := trace s @
         (if progress_marker output
          then StdoutWrite (CHR 0x0D # take 100 (str_trim output))
                 # (if isLive (stats s) then [] else became_live f)
          else if error_marker output then [LogErrorLine output] else [])\<rparr>"
  by (simp add: on_data_def progress_marker_def error_marker_def became_live_def emit_def Let_def)

lemma step_Close_eq:
  assumes "handlers s p = Some f" and "\<not> exited s"
  shows "step (Close p code) s =
           s\<lparr>stats := (stats s)\<lparr>isLive := False\<rparr>,
             hlsDir := clear_dir (undeletable s) (hlsDir s),
             handlers := (handlers s)(p := None),
             timers := Suc (timers s),
             trace := trace s @ [LogStreamEnded code] @ saved_line s
                      @ clear_trace (undeletable s) (hlsDir s) @ [SetTimeout 2000]\<rparr>"
  using assms by (simp add: step_def on_close_eq saved_line_def)

lemma step_TimerFire_eq:
  assumes "0 < timers s" and "\<not> exited s"
  shows "step TimerFire s =
           s\<lparr>ffmpegProcess := Some (nextPid s),
             hlsDir := clear_dir (undeletable s) (hlsDir s),
             handlers := (handlers s)(nextPid s \<mapsto> session_file s),
             nextPid := Suc (nextPid s),
             timers := timers s - 1,
             trace := trace s @ [LogRestarting] @ clear_trace (undeletable s) (hlsDir s)
                      @ [LogStarting, Spawn (nextPid s) (session_file s), LogListening]\<rparr>"
  using assms by (simp add: step_def restart_callback_def start_eq emit_def session_file_def)

lemma run_exited: "exited s \<Longrightarrow> run es s = s"
  by (induction es) (simp_all add: step_def)

lemma run_append: "run (es @ es') s = run es' (run es s)"
  by (induction es arbitrary: s) simp_all

text \<open>Evaluation of the concrete runs.\<close>

lemmas eval_defs =
  main_def start_def constructor_def fresh_env_def clearHLSBuffer_def readdirSync_def
  unlinkSync_def emit_def step_def on_data_def on_close_def on_error_def stop_def spawn_def
  restart_callback_def setTimeout_restart_def process_exit_def on_SIGINT_def on_SIGTERM_def
  getStats_def is_hls_file_def str_endsWith_def str_trim_def is_space_def path_join_def
  CONFIG_outputDir_def CONFIG_hlsDir_def replace_colon_dot_def new_effects_def Let_def

lemma ex_boot_eq:
  "ex_boot =
     \<lparr>ffmpegProcess = Some 0,
      stats = \<lparr>startTime = None, isLive = False, currentFile = None\<rparr>,
      hlsDir = Some [''notes.txt''], undeletable = {}, clock = 1000,
      isoNow = ''2024-01-01T00:00:00.000Z'',
      handlers = [0 \<mapsto> ''streams/stream-2024-01-01T00-00-00-000Z.mp4''],
      nextPid = 1, timers = 0,
      trace = [LogClearing, FsReaddir, FsUnlink ''hls/segment000.ts'' True,
               LogDeleted ''segment000.ts'', FsUnlink ''hls/stream.m3u8'' True,
               LogDeleted ''stream.m3u8'', LogCleared, LogStarting,
               Spawn 0 ''streams/stream-2024-01-01T00-00-00-000Z.mp4'', LogListening],
      exited = False\<rparr>"
  by (simp add: ex_boot_def eval_defs)

section \<open>Invariants of the reachable states\<close>

lemma clear_trace_no_started [simp]: "LogStreamStarted \<notin> set (clear_trace bad dir)"
  by (cases dir) (auto simp: clear_trace_def unlink_trace_def split: option.splits)

lemma saved_line_no_started [simp]: "LogStreamStarted \<notin> set (saved_line s)"
  by (simp add: saved_line_def split: option.splits)

lemma kill_line_no_started [simp]: "LogStreamStarted \<notin> set (kill_line s)"
  by (simp add: kill_line_def split: option.splits)

lemma step_exited [simp]: "exited s \<Longrightarrow> step e s = s"
  by (simp add: step_def)

lemma on_SIGINT_eq:
  "on_SIGINT s =
     s\<lparr>ffmpegProcess := None,
       hlsDir := clear_dir (undeletable s) (hlsDir s),
       trace := trace s @ [LogShuttingDown] @ kill_line s @ clear_trace (undeletable s) (hlsDir s)
                @ [ProcessExit 0],
       exited := True\<rparr>"
  by (simp add: on_SIGINT_def process_exit_def stop_eq emit_def kill_line_def)

lemma on_SIGTERM_eq:
  "on_SIGTERM s =
     s\<lparr>ffmpegProcess := None,
       hlsDir := clear_dir (undeletable s) (hlsDir s),
       trace := trace s @ kill_line s @ clear_trace (undeletable s) (hlsDir s) @ [ProcessExit 0],
       exited := True\<rparr>"
  by (simp add: on_SIGTERM_def process_exit_def stop_eq emit_def kill_line_def)

lemmas handler_eqs = on_data_eq on_close_eq on_error_def emit_def stop_eq start_eq
  restart_callback_def on_SIGINT_eq on_SIGTERM_eq getStats_def

lemma main_eq:
  "main files bad t ts =
     \<lparr>ffmpegProcess = Some 0,
      stats = \<lparr>startTime = None, isLive = False, currentFile = None\<rparr>,
      hlsDir = clear_dir bad files, undeletable = bad, clock = t, isoNow = ts,
      handlers = [0 \<mapsto> path_join CONFIG_outputDir (''stream-'' @ replace_colon_dot ts @ ''.mp4'')],
      nextPid = 1, timers = 0,
      trace = clear_trace bad files
              @ [LogStarting,
                 Spawn 0 (path_join CONFIG_outputDir (''stream-'' @ replace_colon_dot ts @ ''.mp4'')),
                 LogListening],
      exited = False\<rparr>"
  by (simp add: main_def constructor_def fresh_env_def start_eq session_file_def)


lemma single_flow_main: "single_flow (main files bad t ts)"
  by (auto simp: main_eq single_flow_def in_session_def)



lemma map_upd_single_del: "[p \<mapsto> f](p := None) = Map.empty"
  by simp

lemma single_flow_step: "single_flow s \<Longrightarrow> single_flow (step e s)"
proof (cases "exited s")
  case True
  assume "single_flow s"
  with True show ?thesis by simp
next
  case False
  assume sf: "single_flow s"
  from sf consider
      (run) p f where "in_session p f s" "isLive (stats s) \<longrightarrow> currentFile (stats s) = Some f"
    | (wait) "timers s = 1" "handlers s = Map.empty" "\<not> isLive (stats s)"
    unfolding single_flow_def by blast
  then show ?thesis
  proof cases
    case run
    then have h: "handlers s = [p \<mapsto> f]" and t: "timers s = 0"
      by (simp_all add: in_session_def)
    show ?thesis
    proof (cases e)
      case (Close q code)
      show ?thesis
      proof (cases "q = p")
        case True
        then show ?thesis
          using False h t Close
          by (simp add: step_def single_flow_def in_session_def handler_eqs)
      next
        case neq: False
        then show ?thesis
          using False h t Close sf by (simp add: step_def)
      qed
    next
      case (Data q chunk)
      show ?thesis
      proof (cases "q = p")
        case True
        then show ?thesis
          using False h t Data run(2)
          by (auto simp: step_def single_flow_def in_session_def handler_eqs)
      next
        case neq: False
        then show ?thesis
          using False h t Data sf by (simp add: step_def)
      qed
    qed (use False h t run(2) in
          \<open>auto simp: step_def single_flow_def in_session_def handler_eqs split: option.splits\<close>)
  next
    case wait
    then show ?thesis
      using False
      by (cases e) (auto simp: step_def single_flow_def in_session_def handler_eqs)
  qed
qed

lemma single_flow_run: "single_flow s \<Longrightarrow> single_flow (run es s)"
  by (induction es arbitrary: s) (simp_all add: single_flow_step)

lemma reachable_session:
  assumes "handlers (run es (main files bad t ts)) p = Some f"
  shows "in_session p f (run es (main files bad t ts))"
    and "isLive (stats (run es (main files bad t ts)))
           \<Longrightarrow> currentFile (stats (run es (main files bad t ts))) = Some f"
proof -
  let ?s = "run es (main files bad t ts)"
  have "single_flow ?s"
    by (rule single_flow_run [OF single_flow_main])
  then obtain q g where q: "in_session q g ?s" "isLive (stats ?s) \<longrightarrow> currentFile (stats ?s) = Some g"
    using assms unfolding single_flow_def by auto
  then have "q = p \<and> g = f"
    using assms by (auto simp: in_session_def split: if_splits)
  with q show "in_session p f ?s"
    and "isLive (stats ?s) \<Longrightarrow> currentFile (stats ?s) = Some f"
    by simp_all
qed

text \<open>
  A session: while \<open>p\<close> is the only child and no restart is pending, every event but
  the \<^verbatim>\<open>close\<close> of \<open>p\<close> keeps it so; the statistics change only at a progress chunk of
  \<open>p\<close> that finds the session not live.
\<close>

lemma session_step_keeps:
  assumes "in_session p f s" and "\<forall>c. e \<noteq> Close p c"
  shows "in_session p f (step e s)"
proof (cases "exited s")
  case True
  with assms(1) show ?thesis by simp
next
  case False
  have h: "handlers s = [p \<mapsto> f]" and t: "timers s = 0"
    using assms(1) by (simp_all add: in_session_def)
  show ?thesis
    using assms(2) False
    by (cases e) (simp_all add: step_def in_session_def handler_eqs h t)
qed

lemma session_step_quiet:
  assumes "in_session p f s" and "\<forall>c. e \<noteq> Close p c"
    and "isLive (stats s) \<or> \<not> progress_for p e"
  shows "stats (step e s) = stats s \<and> started_count (step e s) = started_count s"
proof (cases "exited s")
  case True
  then show ?thesis by (simp add: started_count_def)
next
  case False
  have h: "handlers s = [p \<mapsto> f]" and t: "timers s = 0"
    using assms(1) by (simp_all add: in_session_def)
  show ?thesis
  proof (cases e)
    case (Data q chunk)
    show ?thesis
    proof (cases "q = p")
      case True
      with assms(3) Data have "isLive (stats s) \<or> \<not> progress_marker chunk"
        by (simp add: progress_for_def)
      then show ?thesis
        using False Data True h
        by (auto simp: step_def on_data_eq started_count_def)
    next
      case neq: False
      then show ?thesis
        using False Data h by (simp add: step_def started_count_def)
    qed
  next
    case (Close q code)
    with assms(2) have "q \<noteq> p" by auto
    then show ?thesis
      using False Close h by (simp add: step_def started_count_def)
  qed (use False h t in \<open>simp_all add: step_def handler_eqs started_count_def\<close>)
qed

lemma session_step_fires:
  assumes "in_session p f s" and "\<not> isLive (stats s)" and "progress_for p e" and "\<not> exited s"
  shows "stats (step e s)
           = (stats s)\<lparr>startTime := Some (clock s), isLive := True, currentFile := Some f\<rparr>
         \<and> started_count (step e s) = Suc (started_count s)"
proof -
  have h: "handlers s = [p \<mapsto> f]"
    using assms(1) by (simp add: in_session_def)
  from assms(3) obtain chunk where e: "e = Data p chunk" and m: "progress_marker chunk"
    by (cases e) (simp_all add: progress_for_def)
  show ?thesis
    using assms(2,4) h m
    by (simp add: e step_def on_data_eq became_live_def started_count_def)
qed


lemma session_run_keeps:
  assumes "in_session p f s" and "\<forall>c. Close p c \<notin> set es"
  shows "in_session p f (run es s)"
  using assms
proof (induction es arbitrary: s)
  case Nil
  then show ?case by simp
next
  case (Cons e es)
  have ne: "\<forall>c. e \<noteq> Close p c"
    using Cons.prems(2) by auto
  have rest: "\<forall>c. Close p c \<notin> set es"
    using Cons.prems(2) by auto
  have "in_session p f (step e s)"
    using Cons.prems(1) ne by (rule session_step_keeps)
  then have "in_session p f (run es (step e s))"
    using rest by (rule Cons.IH)
  then show ?case by simp
qed

lemma session_run_quiet:
  assumes "in_session p f s" and "\<forall>c. Close p c \<notin> set es"
    and "isLive (stats s) \<or> filter (progress_for p) es = []"
  shows "stats (run es s) = stats s \<and> started_count (run es s) = started_count s"
  using assms
proof (induction es arbitrary: s)
  case Nil
  then show ?case by simp
next
  case (Cons e es)
  have ne: "\<forall>c. e \<noteq> Close p c"
    using Cons.prems(2) by auto
  have rest: "\<forall>c. Close p c \<notin> set es"
    using Cons.prems(2) by auto
  have q: "isLive (stats s) \<or> \<not> progress_for p e"
  proof (cases "isLive (stats s)")
    case False
    with Cons.prems(3) have "filter (progress_for p) (e # es) = []" by blast
    then show ?thesis by (cases "progress_for p e") simp_all
  qed simp
  have a: "in_session p f (step e s)"
    using Cons.prems(1) ne by (rule session_step_keeps)
  have b: "stats (step e s) = stats s \<and> started_count (step e s) = started_count s"
    using Cons.prems(1) ne q by (rule session_step_quiet)
  have c: "isLive (stats (step e s)) \<or> filter (progress_for p) es = []"
  proof (cases "isLive (stats s)")
    case True
    with b show ?thesis by simp
  next
    case False
    with Cons.prems(3) have "filter (progress_for p) (e # es) = []" by blast
    then have "filter (progress_for p) es = []"
      by (cases "progress_for p e") simp_all
    then show ?thesis by blast
  qed
  have "stats (run es (step e s)) = stats (step e s)
        \<and> started_count (run es (step e s)) = started_count (step e s)"
    using a rest c by (rule Cons.IH)
  with b show ?case by simp
qed


text \<open>
  The calls of one sweep that change something are its successful deletions; when no
  deletion fails these are all the matching files. A sweep spawns nothing.
\<close>

lemma unlink_trace_changes:
  "filter changes_something (unlink_trace bad files)
     = map (\<lambda>f. FsUnlink (path_join CONFIG_hlsDir f) True) (deleted_by bad files)"
proof -
  have "filter changes_something
          (concat (map (\<lambda>f. [FsUnlink (path_join CONFIG_hlsDir f) True, LogDeleted f]) ds))
        = map (\<lambda>f. FsUnlink (path_join CONFIG_hlsDir f) True) ds" for ds
    by (induction ds) (simp_all add: changes_something_def)
  then show ?thesis
    by (simp add: unlink_trace_def changes_something_def split: option.splits)
qed

lemma clear_trace_changes:
  "filter changes_something (clear_trace bad dir)
     = map (\<lambda>f. FsUnlink (path_join CONFIG_hlsDir f) True)
         (case dir of None \<Rightarrow> [] | Some files \<Rightarrow> deleted_by bad files)"
  by (cases dir)
     (simp_all add: clear_trace_def unlink_trace_changes changes_something_def split: option.splits)

lemma kill_line_changes: "filter changes_something (kill_line s) = kill_line s"
  by (simp add: kill_line_def changes_something_def split: option.splits)

lemma deleted_by_all:
  assumes "first_failure bad files = None"
  shows "deleted_by bad files = filter is_hls_file files"
    and "filter (\<lambda>f. f \<notin> set (deleted_by bad files)) files = filter (\<lambda>f. \<not> is_hls_file f) files"
proof -
  have "dropWhile (\<lambda>f. f \<notin> bad) (filter is_hls_file files) = []"
    using assms by (simp add: first_failure_def split: list.splits)
  then have "takeWhile (\<lambda>f. f \<notin> bad) (filter is_hls_file files) = filter is_hls_file files"
    by (simp add: takeWhile_eq_all_conv)
  then show d: "deleted_by bad files = filter is_hls_file files"
    by (simp add: deleted_by_def)
  show "filter (\<lambda>f. f \<notin> set (deleted_by bad files)) files = filter (\<lambda>f. \<not> is_hls_file f) files"
    unfolding d by (auto intro: filter_cong)
qed

lemma clear_trace_no_spawn: "Spawn p f \<notin> set (clear_trace bad dir)"
  by (cases dir) (auto simp: clear_trace_def unlink_trace_def split: option.splits)

section \<open>The claims\<close>

subsection \<open>getStats\<close>

text \<open>
  Claim C10. \<^verbatim>\<open>getStats()\<close> mutates nothing: the state after the call is the state
  before it, so \<open>startTime\<close>, \<open>isLive\<close>, \<open>currentFile\<close> and the engine handle are
  unchanged; the object it returns carries the three fields as they are; and a second
  call, even at a later clock value, returns the same \<open>isLive\<close> and \<open>currentFile\<close>.
\<close>

theorem getStats_reads_only:
  "snd (getStats s) = s
   \<and> startTime (fst (getStats s)) = startTime (stats s)
   \<and> isLive (fst (getStats s)) = isLive (stats s)
   \<and> currentFile (fst (getStats s)) = currentFile (stats s)
   \<and> isLive (fst (getStats ((snd (getStats s))\<lparr>clock := t\<rparr>))) = isLive (fst (getStats s))
   \<and> currentFile (fst (getStats ((snd (getStats s))\<lparr>clock := t\<rparr>))) = currentFile (fst (getStats s))
   \<and> step GetStats s = s"
  by (simp add: getStats_def step_def stats_t.defs snapshot.defs)

subsection \<open>clearHLSBuffer\<close>

text \<open>
  Claim C4 says that a deletion failure is logged per file and that the remaining
  files are still deleted. The source has one \<^verbatim>\<open>try\<close> around the whole loop, so the first
  \<^verbatim>\<open>unlinkSync\<close> that throws ends the loop. With \<^verbatim>\<open>a.ts\<close> undeletable and \<^verbatim>\<open>b.ts\<close>
  deletable, \<^verbatim>\<open>b.ts\<close> is never attempted and stays in the directory.
\<close>

theorem clear_stops_at_first_failure_counterexample:
  "hlsDir (clearHLSBuffer ex_locked) = Some [''a.ts'', ''b.ts'']
   \<and> ''b.ts'' \<notin> undeletable ex_locked
   \<and> is_hls_file ''b.ts''
   \<and> trace (clearHLSBuffer ex_locked)
       = [LogClearing, FsReaddir, FsUnlink ''hls/a.ts'' False, LogClearError (UnlinkFailed ''a.ts'')]"
  by (simp add: ex_locked_def fresh_env_def clearHLSBuffer_def readdirSync_def unlinkSync_def
      emit_def is_hls_file_def str_endsWith_def path_join_def CONFIG_hlsDir_def)

text \<open>
  Claim C4, as the code has it. When the directory can be read, \<^verbatim>\<open>clearHLSBuffer()\<close>
  deletes the matching files in directory order up to the first one whose deletion
  fails, logs that one failure once, and attempts none of the files after it; when no
  deletion fails every matching file is deleted. The exception never leaves
  \<^verbatim>\<open>clearHLSBuffer()\<close>, and nothing but the directory and the trace changes.
\<close>

theorem clear_stops_at_first_failure:
  assumes "hlsDir s = Some files"
  shows "clearHLSBuffer s =
           s\<lparr>hlsDir := Some (filter (\<lambda>f. f \<notin> set (deleted_by (undeletable s) files)) files),
             trace := trace s @ [LogClearing, FsReaddir]
               @ concat (map (\<lambda>f. [FsUnlink (path_join CONFIG_hlsDir f) True, LogDeleted f])
                           (deleted_by (undeletable s) files))
               @ (case first_failure (undeletable s) files of
                    None \<Rightarrow> [LogCleared]
                  | Some f \<Rightarrow> [FsUnlink (path_join CONFIG_hlsDir f) False,
                               LogClearError (UnlinkFailed f)])\<rparr>
         \<and> deleted_by (undeletable s) files
             = takeWhile (\<lambda>f. f \<notin> undeletable s) (filter is_hls_file files)
         \<and> first_failure (undeletable s) files
             = (case dropWhile (\<lambda>f. f \<notin> undeletable s) (filter is_hls_file files) of
                  [] \<Rightarrow> None | f # _ \<Rightarrow> Some f)"
  using assms
  by (simp add: clearHLSBuffer_eq clear_dir_def clear_trace_def unlink_trace_def deleted_by_def
      first_failure_def split: option.splits)

theorem clear_stops_at_first_failure_witness:
  "hlsDir ex_mixed = Some [''x.ts'', ''a.ts'', ''notes.txt'', ''b.m3u8'']
   \<and> clearHLSBuffer ex_mixed =
       ex_mixed\<lparr>hlsDir := Some [''a.ts'', ''notes.txt'', ''b.m3u8''],
         trace := [LogClearing, FsReaddir, FsUnlink ''hls/x.ts'' True, LogDeleted ''x.ts'',
                   FsUnlink ''hls/a.ts'' False, LogClearError (UnlinkFailed ''a.ts'')]\<rparr>"
proof -
  have h: "hlsDir ex_mixed = Some [''x.ts'', ''a.ts'', ''notes.txt'', ''b.m3u8'']"
    by (simp add: ex_mixed_def fresh_env_def)
  have u: "undeletable ex_mixed = {''a.ts''}" and t: "trace ex_mixed = []"
    by (simp_all add: ex_mixed_def fresh_env_def)
  show ?thesis
    using clear_stops_at_first_failure [OF h]
    by (simp add: h u t deleted_by_def first_failure_def is_hls_file_def str_endsWith_def
        path_join_def CONFIG_hlsDir_def)
qed

subsection \<open>stop\<close>

text \<open>
  Claim C5. The first call of \<^verbatim>\<open>stop()\<close> signals the engine if there is a handle, clears
  the handle and sweeps the buffer once: its calls that change anything are that signal
  and the deletions of one sweep, and when no deletion fails no matching file is left.
  The second call in succession finds the handle null, sends no signal, leaves the
  directory as the first call left it and makes no call that changes anything (no
  successful unlink, no kill, no spawn, no timer); it only reads the directory again
  and, if the first sweep stopped at an undeletable file, fails on that file again. So
  two calls delete and signal exactly what one call does, and neither schedules a
  restart.
\<close>

theorem stop_twice:
  "stop s =
     s\<lparr>ffmpegProcess := None,
       hlsDir := clear_dir (undeletable s) (hlsDir s),
       trace := trace s @ kill_line s @ clear_trace (undeletable s) (hlsDir s)\<rparr>
   \<and> kill_line s = (case ffmpegProcess s of None \<Rightarrow> [] | Some p \<Rightarrow> [Kill p])
   \<and> filter changes_something (new_effects s (stop s))
       = kill_line s
         @ map (\<lambda>f. FsUnlink (path_join CONFIG_hlsDir f) True)
             (case hlsDir s of None \<Rightarrow> [] | Some files \<Rightarrow> deleted_by (undeletable s) files)
   \<and> (hlsDir s = Some files \<and> first_failure (undeletable s) files = None \<longrightarrow>
        hlsDir (stop s) = Some (filter (\<lambda>f. \<not> is_hls_file f) files))
   \<and> stop (stop s)
       = (stop s)\<lparr>trace := trace (stop s) @ clear_trace (undeletable s) (hlsDir (stop s))\<rparr>
   \<and> filter changes_something (new_effects s (stop (stop s)))
       = filter changes_something (new_effects s (stop s))
   \<and> ffmpegProcess (stop s) = None
   \<and> ffmpegProcess (stop (stop s)) = ffmpegProcess (stop s)
   \<and> hlsDir (stop (stop s)) = hlsDir (stop s)
   \<and> filter changes_something (new_effects (stop s) (stop (stop s))) = []
   \<and> timers (stop (stop s)) = timers s
   \<and> handlers (stop (stop s)) = handlers s
   \<and> stats (stop (stop s)) = stats s"
proof -
  have first: "stop s =
     s\<lparr>ffmpegProcess := None,
       hlsDir := clear_dir (undeletable s) (hlsDir s),
       trace := trace s @ kill_line s @ clear_trace (undeletable s) (hlsDir s)\<rparr>"
    by (rule stop_eq)
  have kl: "kill_line s = (case ffmpegProcess s of None \<Rightarrow> [] | Some p \<Rightarrow> [Kill p])"
    by (rule kill_line_def)
  have ch1: "filter changes_something (new_effects s (stop s))
       = kill_line s
         @ map (\<lambda>f. FsUnlink (path_join CONFIG_hlsDir f) True)
             (case hlsDir s of None \<Rightarrow> [] | Some files \<Rightarrow> deleted_by (undeletable s) files)"
    by (simp add: stop_eq clear_trace_changes kill_line_changes)
  have all: "hlsDir (stop s) = Some (filter (\<lambda>f. \<not> is_hls_file f) files)"
    if "hlsDir s = Some files" "first_failure (undeletable s) files = None"
    using that(1) deleted_by_all(2) [OF that(2)] by (simp add: stop_eq clear_dir_def)
  have second: "stop (stop s)
       = (stop s)\<lparr>trace := trace (stop s) @ clear_trace (undeletable s) (hlsDir (stop s))\<rparr>"
    by (simp add: stop_eq [of "stop s"] kill_line_def) (simp add: stop_eq clear_dir_idem)
  have ch2: "filter changes_something (new_effects s (stop (stop s)))
       = filter changes_something (new_effects s (stop s))"
    by (simp add: stop_eq clear_dir_idem clear_trace_again kill_line_def)
  have rest: "ffmpegProcess (stop s) = None"
    "ffmpegProcess (stop (stop s)) = ffmpegProcess (stop s)"
    "hlsDir (stop (stop s)) = hlsDir (stop s)"
    "filter changes_something (new_effects (stop s) (stop (stop s))) = []"
    "timers (stop (stop s)) = timers s"
    "handlers (stop (stop s)) = handlers s"
    "stats (stop (stop s)) = stats s"
    by (simp_all add: stop_eq clear_dir_idem clear_trace_again kill_line_def)
  show ?thesis
    using first kl ch1 all second ch2 rest by blast
qed

theorem stop_twice_witness:
  "hlsDir ex_running = Some [''segment000.ts'', ''segment001.ts'', ''notes.txt'', ''stream.m3u8'']
   \<and> first_failure (undeletable ex_running)
         [''segment000.ts'', ''segment001.ts'', ''notes.txt'', ''stream.m3u8''] = None
   \<and> hlsDir (stop ex_running) = Some [''notes.txt'']
   \<and> new_effects ex_running (stop ex_running)
       = [Kill 0, LogClearing, FsReaddir,
          FsUnlink ''hls/segment000.ts'' True, LogDeleted ''segment000.ts'',
          FsUnlink ''hls/segment001.ts'' True, LogDeleted ''segment001.ts'',
          FsUnlink ''hls/stream.m3u8'' True, LogDeleted ''stream.m3u8'', LogCleared]
   \<and> new_effects (stop ex_running) (stop (stop ex_running)) = [LogClearing, FsReaddir, LogCleared]"
proof -
  have h: "hlsDir ex_running
             = Some [''segment000.ts'', ''segment001.ts'', ''notes.txt'', ''stream.m3u8'']"
    and u: "undeletable ex_running = {}"
    by (simp_all add: ex_running_def ex_boot_eq step_def)
  have ff: "first_failure (undeletable ex_running)
              [''segment000.ts'', ''segment001.ts'', ''notes.txt'', ''stream.m3u8''] = None"
    by (simp add: u first_failure_def)
  have e1: "new_effects ex_running (stop ex_running)
       = [Kill 0, LogClearing, FsReaddir,
          FsUnlink ''hls/segment000.ts'' True, LogDeleted ''segment000.ts'',
          FsUnlink ''hls/segment001.ts'' True, LogDeleted ''segment001.ts'',
          FsUnlink ''hls/stream.m3u8'' True, LogDeleted ''stream.m3u8'', LogCleared]"
    and e2: "new_effects (stop ex_running) (stop (stop ex_running))
               = [LogClearing, FsReaddir, LogCleared]"
    by (simp_all add: ex_running_def ex_boot_eq eval_defs)
  have d: "hlsDir (stop ex_running) = Some (filter (\<lambda>f. \<not> is_hls_file f)
             [''segment000.ts'', ''segment001.ts'', ''notes.txt'', ''stream.m3u8''])"
    using stop_twice [of ex_running
            "[''segment000.ts'', ''segment001.ts'', ''notes.txt'', ''stream.m3u8'']"] h ff
    by blast
  have "hlsDir (stop ex_running) = Some [''notes.txt'']"
    unfolding d by (simp add: is_hls_file_def str_endsWith_def)
  with h ff e1 e2 show ?thesis by blast
qed

subsection \<open>The stderr listener\<close>

text \<open>
  Claim C9. A chunk with a progress marker (\<^verbatim>\<open>frame=\<close> or \<^verbatim>\<open>time=\<close>) is handled as
  progress whatever else it contains: it is echoed, it leaves the session live (with the
  three became-live lines if it was not), and no error line is logged. The warning
  branch runs exactly for the chunks with an error marker and no progress marker.
\<close>

theorem progress_before_error:
  "(progress_marker output \<longrightarrow>
      isLive (stats (on_data f output s))
      \<and> new_effects s (on_data f output s)
          = StdoutWrite (CHR 0x0D # take 100 (str_trim output))
            # (if isLive (stats s) then [] else became_live f))
   \<and> ((\<exists>x. LogErrorLine x \<in> set (new_effects s (on_data f output s)))
        \<longleftrightarrow> (error_marker output \<and> \<not> progress_marker output))
   \<and> progress_marker output = (str_includes output ''frame='' \<or> str_includes output ''time='')
   \<and> error_marker output = (str_includes output ''error'' \<or> str_includes output ''Error'')"
  by (auto simp: on_data_eq became_live_def progress_marker_def error_marker_def)

theorem progress_before_error_witness:
  "progress_marker ''frame=10 Error while decoding''
   \<and> error_marker ''frame=10 Error while decoding''
   \<and> isLive (stats (on_data ''out.mp4'' ''frame=10 Error while decoding'' ex_env))
   \<and> new_effects ex_env (on_data ''out.mp4'' ''frame=10 Error while decoding'' ex_env)
       = [StdoutWrite (CHR 0x0D # ''frame=10 Error while decoding''),
          LogStreamStarted, LogRecording ''out.mp4'', LogWatchLive]"
proof -
  have p: "progress_marker ''frame=10 Error while decoding''"
    by (simp add: progress_marker_def)
  have e: "error_marker ''frame=10 Error while decoding''"
    by (simp add: error_marker_def)
  have l: "\<not> isLive (stats ex_env)"
    by (simp add: ex_env_def fresh_env_def)
  show ?thesis
    using progress_before_error [of "''frame=10 Error while decoding''" "''out.mp4''" ex_env] p e l
    by (simp add: became_live_def str_trim_def is_space_def)
qed

subsection \<open>The close listener\<close>

text \<open>
  Claim C6. Every engine exit takes the same path, whatever its code (zero, non-zero or
  none): the exit code occurs in the first log line only; the session is marked not
  live, the buffer is cleared, and only then the two-second timer is set; when the timer
  fires a new engine is spawned.
\<close>

theorem every_exit_same_path:
  assumes "handlers s p = Some f" and "\<not> exited s"
  shows "step (Close p code) s =
           s\<lparr>stats := (stats s)\<lparr>isLive := False\<rparr>,
             hlsDir := clear_dir (undeletable s) (hlsDir s),
             handlers := (handlers s)(p := None),
             timers := Suc (timers s),
             trace := trace s @ [LogStreamEnded code] @ saved_line s
                      @ clear_trace (undeletable s) (hlsDir s) @ [SetTimeout 2000]\<rparr>
         \<and> ffmpegProcess (step TimerFire (step (Close p code) s)) = Some (nextPid s)
         \<and> Spawn (nextPid s) (session_file s)
             \<in> set (new_effects (step (Close p code) s) (step TimerFire (step (Close p code) s)))"
proof -
  let ?s' = "step (Close p code) s"
  have c: "?s' = s\<lparr>stats := (stats s)\<lparr>isLive := False\<rparr>,
             hlsDir := clear_dir (undeletable s) (hlsDir s),
             handlers := (handlers s)(p := None),
             timers := Suc (timers s),
             trace := trace s @ [LogStreamEnded code] @ saved_line s
                      @ clear_trace (undeletable s) (hlsDir s) @ [SetTimeout 2000]\<rparr>"
    using assms by (rule step_Close_eq)
  have t: "0 < timers ?s'" and x: "\<not> exited ?s'"
    and n: "nextPid ?s' = nextPid s" and f: "session_file ?s' = session_file s"
    using assms(2) by (simp_all add: c session_file_def)
  have tf: "step TimerFire ?s' =
           ?s'\<lparr>ffmpegProcess := Some (nextPid s),
             hlsDir := clear_dir (undeletable ?s') (hlsDir ?s'),
             handlers := (handlers ?s')(nextPid s \<mapsto> session_file s),
             nextPid := Suc (nextPid s),
             timers := timers ?s' - 1,
             trace := trace ?s' @ [LogRestarting] @ clear_trace (undeletable ?s') (hlsDir ?s')
                      @ [LogStarting, Spawn (nextPid s) (session_file s), LogListening]\<rparr>"
    using step_TimerFire_eq [OF t x] by (simp only: n f)
  have "ffmpegProcess (step TimerFire ?s') = Some (nextPid s)"
    by (subst tf) simp
  moreover have "Spawn (nextPid s) (session_file s) \<in> set (new_effects ?s' (step TimerFire ?s'))"
    by (subst tf) simp
  ultimately show ?thesis
    using c by blast
qed

theorem every_exit_same_path_witness:
  "handlers ex_boot 0 = Some ''streams/stream-2024-01-01T00-00-00-000Z.mp4''
   \<and> \<not> exited ex_boot
   \<and> new_effects ex_boot (step (Close 0 (Some 1)) ex_boot)
       = [LogStreamEnded (Some 1), LogClearing, FsReaddir, LogCleared, SetTimeout 2000]
   \<and> timers (step (Close 0 (Some 1)) ex_boot) = 1
   \<and> ffmpegProcess (step TimerFire (step (Close 0 (Some 1)) ex_boot)) = Some 1"
proof -
  have h: "handlers ex_boot 0 = Some ''streams/stream-2024-01-01T00-00-00-000Z.mp4''"
    and x: "\<not> exited ex_boot"
    by (simp_all add: ex_boot_eq)
  show ?thesis
    using every_exit_same_path [OF h x, of "Some 1"] h x
    by (simp add: ex_boot_eq eval_defs)
qed

subsection \<open>The error listener\<close>

text \<open>
  Claim C3 says that a spawn failure does not trigger the restart loop. The \<^verbatim>\<open>error\<close>
  listener only logs, but the \<^verbatim>\<open>close\<close> listener is attached to the same child, and
  Node emits \<^verbatim>\<open>close\<close> after the \<^verbatim>\<open>error\<close> of a child that failed to spawn. With a
  missing executable the run is \<^verbatim>\<open>error\<close>, \<^verbatim>\<open>close\<close> with code -2: the buffer is
  cleared, the timer is set, and the timer spawns the next engine.
\<close>

theorem spawn_failure_restarts_counterexample:
  "new_effects ex_boot (run [Error 0 ''spawn ffmpeg ENOENT'', Close 0 (Some (- 2))] ex_boot)
     = [LogFailedToStart ''spawn ffmpeg ENOENT'', LogStreamEnded (Some (- 2)),
        LogClearing, FsReaddir, LogCleared, SetTimeout 2000]
   \<and> timers (run [Error 0 ''spawn ffmpeg ENOENT'', Close 0 (Some (- 2))] ex_boot) = 1
   \<and> ffmpegProcess
        (run [Error 0 ''spawn ffmpeg ENOENT'', Close 0 (Some (- 2)), TimerFire] ex_boot) = Some 1"
  by (simp add: ex_boot_eq eval_defs)

text \<open>
  Claim C3, as the code has it. The spawn failure is reported as an event of its own,
  and the \<^verbatim>\<open>error\<close> listener changes nothing else: the statistics stay as they are, no
  buffer clear is attempted and nothing is scheduled by it. The restart loop hangs on
  the \<^verbatim>\<open>close\<close> listener alone, which sets the restart timer for the failed child as
  for any other.
\<close>

theorem spawn_failure_only_logged:
  "step (Error p msg) s
     = (if exited s \<or> handlers s p = None then s else s\<lparr>trace := trace s @ [LogFailedToStart msg]\<rparr>)
   \<and> (handlers s p = Some f \<and> \<not> exited s \<longrightarrow>
        timers (step (Close p code) (step (Error p msg) s)) = Suc (timers s)
        \<and> new_effects (step (Error p msg) s) (step (Close p code) (step (Error p msg) s))
            = [LogStreamEnded code] @ saved_line s
              @ clear_trace (undeletable s) (hlsDir s) @ [SetTimeout 2000])"
  by (auto simp: step_def on_error_def emit_def on_close_eq saved_line_def)

theorem spawn_failure_only_logged_witness:
  "handlers ex_boot 0 = Some ''streams/stream-2024-01-01T00-00-00-000Z.mp4''
   \<and> \<not> exited ex_boot
   \<and> step (Error 0 ''spawn ffmpeg ENOENT'') ex_boot
       = ex_boot\<lparr>trace := trace ex_boot @ [LogFailedToStart ''spawn ffmpeg ENOENT'']\<rparr>
   \<and> timers (step (Close 0 (Some (- 2))) (step (Error 0 ''spawn ffmpeg ENOENT'') ex_boot)) = 1
   \<and> new_effects (step (Error 0 ''spawn ffmpeg ENOENT'') ex_boot)
         (step (Close 0 (Some (- 2))) (step (Error 0 ''spawn ffmpeg ENOENT'') ex_boot))
       = [LogStreamEnded (Some (- 2)), LogClearing, FsReaddir, LogCleared, SetTimeout 2000]"
proof -
  have h: "handlers ex_boot 0 = Some ''streams/stream-2024-01-01T00-00-00-000Z.mp4''"
    and x: "\<not> exited ex_boot" and t: "timers ex_boot = 0"
    by (simp_all add: ex_boot_eq)
  show ?thesis
    using spawn_failure_only_logged
            [of 0 "''spawn ffmpeg ENOENT''" ex_boot
                "''streams/stream-2024-01-01T00-00-00-000Z.mp4''" "Some (- 2)"] h x t
    by (simp add: ex_boot_eq eval_defs)
qed

subsection \<open>stop against a pending restart\<close>

text \<open>
  Claim C2. \<^verbatim>\<open>stop()\<close> is invoked by the two signal handlers and by nothing else, and
  each handler calls \<^verbatim>\<open>process.exit(0)\<close> right after it. So in every execution in which
  \<^verbatim>\<open>stop()\<close> is invoked (the program is running and a signal arrives) the handler runs
  \<^verbatim>\<open>stop()\<close> and exits; whatever is delivered afterwards, the firing of a pending restart
  timer included, changes nothing: the timers that were pending stay pending, the handle
  stays null, and no engine is spawned from the invocation on.
\<close>

theorem no_spawn_after_stop:
  assumes "\<not> exited s" and "e = SIGINT \<or> e = SIGTERM"
  shows "step e s = process_exit 0 (stop (if e = SIGINT then emit LogShuttingDown s else s))
       \<and> new_effects s (step e s)
           = (if e = SIGINT then [LogShuttingDown] else []) @ kill_line s
             @ clear_trace (undeletable s) (hlsDir s) @ [ProcessExit 0]
       \<and> step TimerFire (step e s) = step e s
       \<and> run es (step e s) = step e s
       \<and> (\<forall>p f. Spawn p f \<notin> set (new_effects s (run es (step e s))))
       \<and> timers (run es (step e s)) = timers s
       \<and> ffmpegProcess (run es (step e s)) = None"
proof -
  have x: "exited (step e s)"
    using assms by (auto simp: step_def on_SIGINT_eq on_SIGTERM_eq)
  have a: "step e s = process_exit 0 (stop (if e = SIGINT then emit LogShuttingDown s else s))"
    using assms by (auto simp: step_def on_SIGINT_def on_SIGTERM_def)
  have b: "new_effects s (step e s)
           = (if e = SIGINT then [LogShuttingDown] else []) @ kill_line s
             @ clear_trace (undeletable s) (hlsDir s) @ [ProcessExit 0]"
    using assms by (auto simp: step_def on_SIGINT_eq on_SIGTERM_eq)
  have c: "step TimerFire (step e s) = step e s"
    using x by simp
  have d: "run es (step e s) = step e s"
    using x by (rule run_exited)
  have f: "\<forall>p f. Spawn p f \<notin> set (new_effects s (run es (step e s)))"
    unfolding d b by (auto simp: clear_trace_no_spawn kill_line_def split: option.splits)
  have g: "timers (run es (step e s)) = timers s" "ffmpegProcess (run es (step e s)) = None"
    unfolding d using assms by (auto simp: step_def on_SIGINT_eq on_SIGTERM_eq)
  show ?thesis
    using a b c d f g by blast
qed

theorem no_spawn_after_stop_witness:
  "\<not> exited ex_cleaning
   \<and> timers ex_cleaning = 1
   \<and> new_effects ex_cleaning (step SIGINT ex_cleaning)
       = [LogShuttingDown, Kill 0, LogClearing, FsReaddir, LogCleared, ProcessExit 0]
   \<and> run [TimerFire, Data 0 ''frame=1'', TimerFire] (step SIGINT ex_cleaning) = step SIGINT ex_cleaning
   \<and> (\<forall>p f. Spawn p f \<notin> set (new_effects ex_cleaning
                          (run [TimerFire, Data 0 ''frame=1'', TimerFire] (step SIGINT ex_cleaning))))
   \<and> timers (run [TimerFire, Data 0 ''frame=1'', TimerFire] (step SIGINT ex_cleaning)) = 1"
proof -
  have c: "ex_cleaning =
     ex_boot\<lparr>timers := 1, handlers := Map.empty,
       trace := trace ex_boot
                @ [LogStreamEnded (Some 0), LogClearing, FsReaddir, LogCleared, SetTimeout 2000]\<rparr>"
    by (simp add: ex_cleaning_def ex_boot_eq eval_defs)
  have x: "\<not> exited ex_cleaning" and t: "timers ex_cleaning = 1"
    and k: "kill_line ex_cleaning = [Kill 0]"
    and ct: "clear_trace (undeletable ex_cleaning) (hlsDir ex_cleaning)
               = [LogClearing, FsReaddir, LogCleared]"
    by (simp_all add: c ex_boot_eq kill_line_def clear_trace_def unlink_trace_def deleted_by_def
        first_failure_def is_hls_file_def str_endsWith_def)
  note th = no_spawn_after_stop [OF x disjI1 [OF refl], of "[TimerFire, Data 0 ''frame=1'', TimerFire]"]
  from th have "new_effects ex_cleaning (step SIGINT ex_cleaning)
       = (if SIGINT = SIGINT then [LogShuttingDown] else []) @ kill_line ex_cleaning
         @ clear_trace (undeletable ex_cleaning) (hlsDir ex_cleaning) @ [ProcessExit 0]"
    by blast
  then have e: "new_effects ex_cleaning (step SIGINT ex_cleaning)
       = [LogShuttingDown, Kill 0, LogClearing, FsReaddir, LogCleared, ProcessExit 0]"
    unfolding k ct by simp
  from th have "timers (run [TimerFire, Data 0 ''frame=1'', TimerFire] (step SIGINT ex_cleaning))
                  = timers ex_cleaning"
    by blast
  then have tm: "timers (run [TimerFire, Data 0 ''frame=1'', TimerFire] (step SIGINT ex_cleaning)) = 1"
    unfolding t .
  from x t e tm th show ?thesis by blast
qed

subsection \<open>The start time\<close>




subsection \<open>The live transition\<close>

text \<open>
  Claim C7. Take any reachable state in which the engine \<open>p\<close> runs and the session is
  not yet live, and let the session go on (no \<^verbatim>\<open>close\<close> of \<open>p\<close>). As long as no progress
  chunk of \<open>p\<close> arrives, nothing fires. The first progress chunk fires the transition:
  live, start time, artifact path, and the became-live lines. Whatever follows in the
  session, further progress chunks included, leaves the statistics as the transition
  set them and fires nothing: one notification per session.
\<close>

theorem live_transition_once:
  assumes "s = run es (main files bad t ts)"
    and "handlers s p = Some f"
    and "\<not> isLive (stats s)"
    and "\<forall>c. Close p c \<notin> set (es1 @ es2)"
    and "filter (progress_for p) es1 = []"
    and "progress_marker output"
    and "\<not> exited (run es1 s)"
  shows "stats (run es1 s) = stats s
       \<and> started_count (run es1 s) = started_count s
       \<and> stats (run (es1 @ [Data p output]) s)
           = (stats s)\<lparr>startTime := Some (clock (run es1 s)), isLive := True,
                        currentFile := Some f\<rparr>
       \<and> new_effects (run es1 s) (run (es1 @ [Data p output]) s)
           = StdoutWrite (CHR 0x0D # take 100 (str_trim output)) # became_live f
       \<and> stats (run (es1 @ Data p output # es2) s) = stats (run (es1 @ [Data p output]) s)
       \<and> started_count (run (es1 @ Data p output # es2) s) = Suc (started_count s)"
proof -
  let ?s1 = "run es1 s"
  let ?s2 = "step (Data p output) ?s1"
  have sess: "in_session p f s"
    using assms(2) unfolding assms(1) by (rule reachable_session(1))
  have c1: "\<forall>c. Close p c \<notin> set es1" and c2: "\<forall>c. Close p c \<notin> set es2"
    using assms(4) by auto
  have q1: "stats ?s1 = stats s \<and> started_count ?s1 = started_count s"
    using sess c1 assms(5) by (intro session_run_quiet) auto
  have sess1: "in_session p f ?s1"
    using sess c1 by (rule session_run_keeps)
  have nl: "\<not> isLive (stats ?s1)"
    using q1 assms(3) by simp
  have pf: "progress_for p (Data p output)"
    using assms(6) by (simp add: progress_for_def)
  have fire: "stats ?s2
                = (stats ?s1)\<lparr>startTime := Some (clock ?s1), isLive := True, currentFile := Some f\<rparr>
              \<and> started_count ?s2 = Suc (started_count ?s1)"
    using sess1 nl pf assms(7) by (rule session_step_fires)
  have h1: "handlers ?s1 p = Some f"
    using sess1 by (simp add: in_session_def)
  have eff: "new_effects ?s1 ?s2
               = StdoutWrite (CHR 0x0D # take 100 (str_trim output)) # became_live f"
    using h1 nl assms(6,7) by (simp add: step_def on_data_eq)
  have sess2: "in_session p f ?s2"
    using sess1 by (rule session_step_keeps) simp
  have live2: "isLive (stats ?s2)"
    using fire by simp
  have q2: "stats (run es2 ?s2) = stats ?s2 \<and> started_count (run es2 ?s2) = started_count ?s2"
    using sess2 c2 live2 by (intro session_run_quiet) auto
  have r1: "run (es1 @ [Data p output]) s = ?s2"
    and r2: "run (es1 @ Data p output # es2) s = run es2 ?s2"
    by (simp_all add: run_append)
  show ?thesis
    unfolding r1 r2 using q1 fire eff q2 by simp
qed

theorem live_transition_once_witness:
  "handlers ex_boot 0 = Some ''streams/stream-2024-01-01T00-00-00-000Z.mp4''
   \<and> \<not> isLive (stats ex_boot)
   \<and> (\<forall>c. Close 0 c \<notin> set ([Data 0 ''[error] dropped'', Tick 1500 ''2024-01-01T00:00:00.500Z'']
                               @ [Data 0 ''frame=2 time=00:00:01'']))
   \<and> filter (progress_for 0) [Data 0 ''[error] dropped'', Tick 1500 ''2024-01-01T00:00:00.500Z''] = []
   \<and> progress_marker ''frame=1''
   \<and> \<not> exited (run [Data 0 ''[error] dropped'', Tick 1500 ''2024-01-01T00:00:00.500Z''] ex_boot)
   \<and> stats (run ([Data 0 ''[error] dropped'', Tick 1500 ''2024-01-01T00:00:00.500Z'']
                  @ Data 0 ''frame=1'' # [Data 0 ''frame=2 time=00:00:01'']) ex_boot)
       = \<lparr>startTime = Some 1500, isLive = True, currentFile = Some ''streams/stream-2024-01-01T00-00-00-000Z.mp4''\<rparr>
   \<and> started_count (run ([Data 0 ''[error] dropped'', Tick 1500 ''2024-01-01T00:00:00.500Z'']
                          @ Data 0 ''frame=1'' # [Data 0 ''frame=2 time=00:00:01'']) ex_boot)
       = Suc (started_count ex_boot)"
proof -
  let ?es1 = "[Data 0 ''[error] dropped'', Tick 1500 ''2024-01-01T00:00:00.500Z'']"
  let ?es2 = "[Data 0 ''frame=2 time=00:00:01'']"
  have r: "ex_boot = run [] (main (Some [''segment000.ts'', ''notes.txt'', ''stream.m3u8'']) {} 1000
                               ''2024-01-01T00:00:00.000Z'')"
    by (simp add: ex_boot_def)
  have h: "handlers ex_boot 0 = Some ''streams/stream-2024-01-01T00-00-00-000Z.mp4''"
    and nl: "\<not> isLive (stats ex_boot)"
    by (simp_all add: ex_boot_eq)
  have c: "\<forall>c. Close 0 c \<notin> set (?es1 @ ?es2)"
    by simp
  have pf: "filter (progress_for 0) ?es1 = []"
    by (simp add: progress_for_def progress_marker_def)
  have pm: "progress_marker ''frame=1''"
    by (simp add: progress_marker_def)
  have x: "\<not> exited (run ?es1 ex_boot)"
    by (simp add: ex_boot_eq eval_defs)
  have k: "clock (run ?es1 ex_boot) = 1500"
    by (simp add: ex_boot_eq eval_defs)
  have st: "stats ex_boot = \<lparr>startTime = None, isLive = False, currentFile = None\<rparr>"
    by (simp add: ex_boot_eq)
  show ?thesis
    using live_transition_once [OF r h nl c pf pm x] h nl c pf pm x
    by (simp add: ex_boot_eq eval_defs started_count_def became_live_def)
qed

subsection \<open>The artifact path\<close>




end
